theory Spec2Isabelle
  imports Complex_Main
begin

section \<open>The AR focus timer of \<^verbatim>\<open>src/src/App.tsx\<close>\<close>

text \<open>
  The component \<^verbatim>\<open>ARFocusMVP\<close> keeps its state in React state cells and refs. The model is a
  record of those cells, one function per handler or callback of the source, and the two
  reload effects of lines 89--95 run after every committed update. JavaScript numbers are
  modelled as follows: the counters \<^verbatim>\<open>focusSec\<close> and \<^verbatim>\<open>distractSec\<close>, which start at 0 and only
  ever grow by 1, are natural numbers; every other number (minutes, seconds left, HP,
  milliseconds) is a real number, so that \<^verbatim>\<open>+\<close>, \<^verbatim>\<open>-\<close>, \<^verbatim>\<open>*\<close>, \<^verbatim>\<open>Math.max\<close> and \<^verbatim>\<open>Math.min\<close> are the
  exact operations and the rounding of IEEE doubles is left out. Every event (a click, an
  input change, a firing of the interval, an animation frame) is one batch of state
  updates followed by one commit; writes to storage succeed.
\<close>

subsection \<open>Data\<close>

datatype mode = Alpha | Beta

text \<open>
  \<^verbatim>\<open>type SessionLog\<close> (lines 21--33). The field \<^verbatim>\<open>id\<close> and the fields that share a name with a
  state cell of the component carry the suffix \<^verbatim>\<open>_log\<close>.
\<close>

record SessionLog =
  id_log :: string
  startedAt :: string
  endedAt :: string
  durationSec :: nat
  workMinutes_log :: real
  breakMinutes_log :: real
  focusSec_log :: nat
  distractSec_log :: nat
  hpStart :: real
  hpEnd :: real
  mode_log :: mode

text \<open>The values \<^verbatim>\<open>JSON.parse\<close> can return.\<close>

datatype json =
    JNull
  | JBool bool
  | JNumber real
  | JString string
  | JArray "json list"
  | JObject "(string \<times> json) list"

text \<open>
  An element of the in-memory session list: an entry built by \<^verbatim>\<open>stopAndSave\<close>, or a value
  that \<^verbatim>\<open>loadSessions\<close> took from storage with the unchecked cast \<^verbatim>\<open>arr as SessionLog[]\<close>.
\<close>

datatype entry = Logged SessionLog | Loaded json

text \<open>What \<^verbatim>\<open>localStorage.getItem\<close> does: it throws, or returns \<^verbatim>\<open>null\<close> or a string.\<close>

datatype getItem_result = Raises | Returns "string option"

text \<open>What \<^verbatim>\<open>det.estimateFaces\<close> (and the drawing after it) does inside the \<^verbatim>\<open>try\<close> of line 186:
  it yields whether a face is present, or something throws.\<close>

datatype estimate = Faces bool | Failed

text \<open>
  The state cells and refs of the component (lines 60--87, 228--229) and the item stored
  under \<^verbatim>\<open>STORAGE_KEY\<close>. The cells \<^verbatim>\<open>cameraOn\<close>, \<^verbatim>\<open>modelReady\<close> and \<^verbatim>\<open>inferenceActive\<close> and the DOM refs
  only decide whether a frame can be classified; a frame carries that as a flag.
\<close>

record ARFocusMVP =
  workMinutes :: real
  breakMinutes :: real
  isRunning :: bool
  isOnBreak :: bool
  secondsLeft :: real
  hp :: real
  focusedNow :: "bool option"
  distractionStreakMs :: real
  focusSec :: nat
  distractSec :: nat
  hpStartRef :: real
  mode :: mode
  lastInferTs :: real
  sessions :: "entry list"
  sessionStartRef :: "string option"
  localStorage :: "string option"

subsection \<open>Constants (lines 73--75)\<close>

definition distractGraceMs :: real where
  "distractGraceMs = 1500"

definition focusRewardPerSec :: real where
  "focusRewardPerSec = 0.06"

definition distractPenaltyPerSec :: real where
  "distractPenaltyPerSec = 0.5"

subsection \<open>Session store (lines 35--49)\<close>

text \<open>
  \<^verbatim>\<open>loadSessions\<close>. \<^verbatim>\<open>JSON.parse\<close> is the platform's parser and is a parameter: \<open>None\<close> when
  it throws. \<^verbatim>\<open>!raw\<close> holds for \<^verbatim>\<open>null\<close> and for the empty string.
\<close>

definition loadSessions :: "(string \<Rightarrow> json option) \<Rightarrow> getItem_result \<Rightarrow> json list" where
  "loadSessions JSON_parse got =
     (case got of
        Raises \<Rightarrow> []
      | Returns None \<Rightarrow> []
      | Returns (Some raw) \<Rightarrow>
          if raw = [] then []
          else (case JSON_parse raw of
                  None \<Rightarrow> []
                | Some (JArray arr) \<Rightarrow> arr
                | Some _ \<Rightarrow> []))"

text \<open>\<^verbatim>\<open>saveSessions\<close>. \<^verbatim>\<open>JSON.stringify\<close> is a parameter as well.\<close>

definition saveSessions :: "(entry list \<Rightarrow> string) \<Rightarrow> entry list \<Rightarrow> ARFocusMVP \<Rightarrow> ARFocusMVP" where
  "saveSessions JSON_stringify list s = s\<lparr>localStorage := Some (JSON_stringify list)\<rparr>"

subsection \<open>The 1 Hz interval callback (lines 99--115)\<close>

text \<open>A JavaScript condition on a \<^verbatim>\<open>boolean | null\<close>: only \<^verbatim>\<open>true\<close> is truthy.\<close>

definition truthy :: "bool option \<Rightarrow> bool" where
  "truthy b = (b = Some True)"

text \<open>The updater passed to \<^verbatim>\<open>setSecondsLeft\<close>, with the \<^verbatim>\<open>setIsOnBreak\<close> it calls (lines 100--107).\<close>

definition countdown :: "ARFocusMVP \<Rightarrow> ARFocusMVP" where
  "countdown s =
     (if secondsLeft s \<le> 1 then
        (let nextIsBreak = \<not> isOnBreak s
         in s\<lparr>isOnBreak := nextIsBreak,
              secondsLeft := (if nextIsBreak then breakMinutes s else workMinutes s) * 60\<rparr>)
      else s\<lparr>secondsLeft := secondsLeft s - 1\<rparr>)"

text \<open>The HP updater and the counter updates (lines 108--114).\<close>

definition score :: "ARFocusMVP \<Rightarrow> ARFocusMVP" where
  "score s =
     (let delta = (if truthy (focusedNow s) then focusRewardPerSec else - distractPenaltyPerSec);
          nh = max 0 (min 100 (hp s + delta));
          s1 = s\<lparr>hp := nh\<rparr>
      in if truthy (focusedNow s) then s1\<lparr>focusSec := focusSec s + 1\<rparr>
         else s1\<lparr>distractSec := distractSec s + 1\<rparr>)"

definition tick :: "ARFocusMVP \<Rightarrow> ARFocusMVP" where
  "tick s = score (countdown s)"

subsection \<open>The frame loop (lines 168--220)\<close>

text \<open>
  One call of \<^verbatim>\<open>loop(ts)\<close>: \<open>ready\<close> is the condition of line 182, \<open>est\<close> the outcome of the
  \<^verbatim>\<open>try\<close> block when a classification is made.
\<close>

definition loop :: "real \<Rightarrow> bool \<Rightarrow> estimate \<Rightarrow> ARFocusMVP \<Rightarrow> ARFocusMVP" where
  "loop ts ready est s =
     (if ready then
        (let elapsed = ts - lastInferTs s
         in if elapsed > 200 then
              (let s1 = s\<lparr>lastInferTs := ts\<rparr>
               in case est of
                    Failed \<Rightarrow> s1\<lparr>focusedNow := None\<rparr>
                  | Faces present \<Rightarrow>
                      if \<not> present then
                        (let next = distractionStreakMs s1 + elapsed
                         in (if next > distractGraceMs then s1\<lparr>focusedNow := Some False\<rparr> else s1)
                              \<lparr>distractionStreakMs := next\<rparr>)
                      else s1\<lparr>distractionStreakMs := 0, focusedNow := Some True\<rparr>)
            else s)
      else s\<lparr>focusedNow := None\<rparr>)"

subsection \<open>Handlers (lines 231--281 and the inputs of lines 350--369)\<close>

text \<open>\<^verbatim>\<open>!sessionStartRef.current\<close>: \<^verbatim>\<open>null\<close> and the empty string are falsy.\<close>

definition falsy :: "string option \<Rightarrow> bool" where
  "falsy r = (case r of None \<Rightarrow> True | Some str \<Rightarrow> str = [])"

definition startTimer :: "string \<Rightarrow> ARFocusMVP \<Rightarrow> ARFocusMVP" where
  "startTimer now s =
     (if \<not> isRunning s then
        (let s1 = s\<lparr>isRunning := True\<rparr>
         in if falsy (sessionStartRef s1)
            then s1\<lparr>sessionStartRef := Some now, hpStartRef := hp s1\<rparr>
            else s1)
      else s)"

definition pauseTimer :: "ARFocusMVP \<Rightarrow> ARFocusMVP" where
  "pauseTimer s = s\<lparr>isRunning := False\<rparr>"

definition resetTimer :: "ARFocusMVP \<Rightarrow> ARFocusMVP" where
  "resetTimer s =
     s\<lparr>isRunning := False,
       isOnBreak := False,
       secondsLeft := workMinutes s * 60,
       focusSec := 0,
       distractSec := 0,
       hp := 100,
       sessionStartRef := None\<rparr>"

text \<open>
  \<^verbatim>\<open>stopAndSave\<close>: \<open>now1\<close> and \<open>now2\<close> are the two readings \<^verbatim>\<open>new Date().toISOString()\<close> of lines
  255--256, \<open>nowId\<close> is \<^verbatim>\<open>`${Date.now()}`\<close>.
\<close>

definition newLog :: "string \<Rightarrow> string \<Rightarrow> string \<Rightarrow> ARFocusMVP \<Rightarrow> SessionLog" where
  "newLog now1 now2 nowId s =
     \<lparr>id_log = nowId,
      startedAt = (case sessionStartRef s of
                     None \<Rightarrow> now1
                   | Some str \<Rightarrow> if str = [] then now1 else str),
      endedAt = now2,
      durationSec = focusSec s + distractSec s,
      workMinutes_log = workMinutes s,
      breakMinutes_log = breakMinutes s,
      focusSec_log = focusSec s,
      distractSec_log = distractSec s,
      hpStart = hpStartRef s,
      hpEnd = hp s,
      mode_log = mode s\<rparr>"

definition stopAndSave ::
  "(entry list \<Rightarrow> string) \<Rightarrow> string \<Rightarrow> string \<Rightarrow> string \<Rightarrow> ARFocusMVP \<Rightarrow> ARFocusMVP" where
  "stopAndSave JSON_stringify now1 now2 nowId s =
     (let log = newLog now1 now2 nowId s;
          next = take 300 (Logged log # sessions s);
          s1 = s\<lparr>isRunning := False, sessions := next\<rparr>;
          s2 = saveSessions JSON_stringify next s1
      in s2\<lparr>isOnBreak := False,
            secondsLeft := workMinutes s * 60,
            focusSec := 0,
            distractSec := 0,
            hp := 100,
            sessionStartRef := None\<rparr>)"

definition setWorkMinutes :: "real \<Rightarrow> ARFocusMVP \<Rightarrow> ARFocusMVP" where
  "setWorkMinutes v s = s\<lparr>workMinutes := max 5 (min 120 v)\<rparr>"

definition setBreakMinutes :: "real \<Rightarrow> ARFocusMVP \<Rightarrow> ARFocusMVP" where
  "setBreakMinutes v s = s\<lparr>breakMinutes := max 3 (min 60 v)\<rparr>"

definition setMode :: "mode \<Rightarrow> ARFocusMVP \<Rightarrow> ARFocusMVP" where
  "setMode m s = s\<lparr>mode := m\<rparr>"

subsection \<open>The reload effects (lines 89--95)\<close>

text \<open>
  React runs an effect after a commit when one of its dependencies differs from the
  previous commit. \<open>prev\<close> is the state of the previous commit, \<open>cur\<close> the state just
  committed. Neither effect writes a dependency, so one round settles.
\<close>

definition reload_effects :: "ARFocusMVP \<Rightarrow> ARFocusMVP \<Rightarrow> ARFocusMVP" where
  "reload_effects prev cur =
     (let s1 = (if (workMinutes prev \<noteq> workMinutes cur \<or> isRunning prev \<noteq> isRunning cur
                     \<or> isOnBreak prev \<noteq> isOnBreak cur)
                   \<and> \<not> isRunning cur \<and> \<not> isOnBreak cur
                then cur\<lparr>secondsLeft := workMinutes cur * 60\<rparr> else cur)
      in if (breakMinutes prev \<noteq> breakMinutes cur \<or> isRunning prev \<noteq> isRunning cur
               \<or> isOnBreak prev \<noteq> isOnBreak cur)
            \<and> \<not> isRunning cur \<and> isOnBreak cur
         then s1\<lparr>secondsLeft := breakMinutes cur * 60\<rparr> else s1)"

subsection \<open>Events\<close>

text \<open>
  Everything that can happen to the mounted component: a button, an input change, a
  firing of the 1 Hz interval, an animation frame. The interval exists only while
  \<^verbatim>\<open>isRunning\<close> (line 98), so a \<open>Tick\<close> does nothing otherwise.
\<close>

datatype event =
    Start string
  | Pause
  | Reset
  | Save string string string
  | Tick
  | Frame real bool estimate
  | SetWorkMinutes real
  | SetBreakMinutes real
  | SetMode mode

fun handle :: "(entry list \<Rightarrow> string) \<Rightarrow> event \<Rightarrow> ARFocusMVP \<Rightarrow> ARFocusMVP" where
  "handle js (Start now) s = startTimer now s"
| "handle js Pause s = pauseTimer s"
| "handle js Reset s = resetTimer s"
| "handle js (Save now1 now2 nowId) s = stopAndSave js now1 now2 nowId s"
| "handle js Tick s = (if isRunning s then tick s else s)"
| "handle js (Frame ts ready est) s = loop ts ready est s"
| "handle js (SetWorkMinutes v) s = setWorkMinutes v s"
| "handle js (SetBreakMinutes v) s = setBreakMinutes v s"
| "handle js (SetMode m) s = setMode m s"

definition step :: "(entry list \<Rightarrow> string) \<Rightarrow> event \<Rightarrow> ARFocusMVP \<Rightarrow> ARFocusMVP" where
  "step js ev s = reload_effects s (handle js ev s)"

definition run :: "(entry list \<Rightarrow> string) \<Rightarrow> event list \<Rightarrow> ARFocusMVP \<Rightarrow> ARFocusMVP" where
  "run js evs s = fold (step js) evs s"

text \<open>The state after mounting (the initial values of the cells, lines 60--87 and 228--229).\<close>

definition initial :: "(string \<Rightarrow> json option) \<Rightarrow> string option \<Rightarrow> ARFocusMVP" where
  "initial JSON_parse item =
     \<lparr>workMinutes = 25,
      breakMinutes = 5,
      isRunning = False,
      isOnBreak = False,
      secondsLeft = 25 * 60,
      hp = 100,
      focusedNow = None,
      distractionStreakMs = 0,
      focusSec = 0,
      distractSec = 0,
      hpStartRef = 100,
      mode = Alpha,
      lastInferTs = 0,
      sessions = map Loaded (loadSessions JSON_parse (Returns item)),
      sessionStartRef = None,
      localStorage = item\<rparr>"

subsection \<open>Runs of ticks and the bookkeeping of a session\<close>

text \<open>
  A run of firings of the interval callback, the attention signal read by each firing
  given in advance: before the firing at position \<open>i\<close> the cell \<^verbatim>\<open>focusedNow\<close> holds the
  \<open>i\<close>-th element (\<open>Some True\<close> is Focused, \<open>Some False\<close> Distracted, \<open>None\<close> Unknown).
\<close>

fun ticks_seeing :: "bool option list \<Rightarrow> ARFocusMVP \<Rightarrow> ARFocusMVP" where
  "ticks_seeing [] s = s"
| "ticks_seeing (a # as) s = ticks_seeing as (tick (s\<lparr>focusedNow := a\<rparr>))"

text \<open>
  The specification's bookkeeping of a session, kept beside the state while the events
  run; it is not part of the program. The number counts the ticks processed since the
  last save or reset (or since mounting). The last component is there while a session
  is open: the HP at the moment the session was opened, and the ticks processed since
  then. A session is opened by a \<open>Start\<close> that finds the clock stopped and no start marker,
  and it is closed by a save or a reset. A tick is processed when the clock is running.
\<close>

fun observe ::
  "(entry list \<Rightarrow> string) \<Rightarrow> event \<Rightarrow> ARFocusMVP \<times> nat \<times> (real \<times> nat) option
    \<Rightarrow> ARFocusMVP \<times> nat \<times> (real \<times> nat) option" where
  "observe js ev (s, n, opened) =
     (step js ev s,
      (case ev of
         Tick \<Rightarrow> if isRunning s then n + 1 else n
       | Reset \<Rightarrow> 0
       | Save now1 now2 nowId \<Rightarrow> 0
       | _ \<Rightarrow> n),
      (case ev of
         Start now \<Rightarrow>
           if \<not> isRunning s \<and> falsy (sessionStartRef s) then Some (hp s, 0) else opened
       | Tick \<Rightarrow>
           if isRunning s then map_option (\<lambda>(h0, k). (h0, k + 1)) opened else opened
       | Reset \<Rightarrow> None
       | Save now1 now2 nowId \<Rightarrow> None
       | _ \<Rightarrow> opened))"

definition observed ::
  "(entry list \<Rightarrow> string) \<Rightarrow> event list \<Rightarrow> ARFocusMVP
    \<Rightarrow> ARFocusMVP \<times> nat \<times> (real \<times> nat) option" where
  "observed js evs s = fold (observe js) evs (s, 0, None)"

text \<open>
  What the bookkeeping and the state agree on: the two counters add up to the ticks
  counted, and the HP noted at the opening of the session is the one in \<^verbatim>\<open>hpStartRef\<close>.
\<close>

definition agrees :: "ARFocusMVP \<times> nat \<times> (real \<times> nat) option \<Rightarrow> bool" where
  "agrees r =
     (case r of (s, n, opened) \<Rightarrow>
        focusSec s + distractSec s = n
        \<and> (case opened of None \<Rightarrow> True | Some (h0, k) \<Rightarrow> hpStartRef s = h0))"

text \<open>
  What holds in addition when no \<open>Start\<close> carries the empty string as its timestamp
  (\<^verbatim>\<open>toISOString\<close> never returns it): without a start marker the clock is stopped and no tick
  has been counted, and the ticks of an open session are all the ticks counted.
\<close>

definition settled :: "ARFocusMVP \<times> nat \<times> (real \<times> nat) option \<Rightarrow> bool" where
  "settled r =
     (case r of (s, n, opened) \<Rightarrow>
        (falsy (sessionStartRef s) \<longrightarrow> \<not> isRunning s \<and> n = 0)
        \<and> (case opened of None \<Rightarrow> True | Some (h0, k) \<Rightarrow> k = n))"

section \<open>What each callback does to each cell\<close>

lemma countdown_fields:
  "secondsLeft (countdown s) =
     (if secondsLeft s \<le> 1 then (if isOnBreak s then workMinutes s else breakMinutes s) * 60
      else secondsLeft s - 1)"
  "isOnBreak (countdown s) = (if secondsLeft s \<le> 1 then \<not> isOnBreak s else isOnBreak s)"
  "hp (countdown s) = hp s"
  "focusSec (countdown s) = focusSec s"
  "distractSec (countdown s) = distractSec s"
  "focusedNow (countdown s) = focusedNow s"
  "isRunning (countdown s) = isRunning s"
  "workMinutes (countdown s) = workMinutes s"
  "breakMinutes (countdown s) = breakMinutes s"
  "hpStartRef (countdown s) = hpStartRef s"
  "sessionStartRef (countdown s) = sessionStartRef s"
  "sessions (countdown s) = sessions s"
  "localStorage (countdown s) = localStorage s"
  "distractionStreakMs (countdown s) = distractionStreakMs s"
  "lastInferTs (countdown s) = lastInferTs s"
  "mode (countdown s) = mode s"
  by (simp_all add: countdown_def Let_def)

lemma countdown_frame:
  "countdown s = s\<lparr>isOnBreak := isOnBreak (countdown s), secondsLeft := secondsLeft (countdown s)\<rparr>"
  by (simp add: countdown_def Let_def)

lemma score_fields:
  "hp (score s) =
     max 0 (min 100 (hp s + (if focusedNow s = Some True then 0.06 else - 0.5)))"
  "focusSec (score s) = (if focusedNow s = Some True then focusSec s + 1 else focusSec s)"
  "distractSec (score s) = (if focusedNow s = Some True then distractSec s else distractSec s + 1)"
  "secondsLeft (score s) = secondsLeft s"
  "isOnBreak (score s) = isOnBreak s"
  "focusedNow (score s) = focusedNow s"
  "isRunning (score s) = isRunning s"
  "workMinutes (score s) = workMinutes s"
  "breakMinutes (score s) = breakMinutes s"
  "hpStartRef (score s) = hpStartRef s"
  "sessionStartRef (score s) = sessionStartRef s"
  "sessions (score s) = sessions s"
  "localStorage (score s) = localStorage s"
  "distractionStreakMs (score s) = distractionStreakMs s"
  "lastInferTs (score s) = lastInferTs s"
  "mode (score s) = mode s"
  by (simp_all add: score_def truthy_def focusRewardPerSec_def distractPenaltyPerSec_def Let_def)

lemma tick_fields:
  "hp (tick s) = max 0 (min 100 (hp s + (if focusedNow s = Some True then 0.06 else - 0.5)))"
  "focusSec (tick s) = (if focusedNow s = Some True then focusSec s + 1 else focusSec s)"
  "distractSec (tick s) = (if focusedNow s = Some True then distractSec s else distractSec s + 1)"
  "secondsLeft (tick s) =
     (if secondsLeft s \<le> 1 then (if isOnBreak s then workMinutes s else breakMinutes s) * 60
      else secondsLeft s - 1)"
  "isOnBreak (tick s) = (if secondsLeft s \<le> 1 then \<not> isOnBreak s else isOnBreak s)"
  "focusedNow (tick s) = focusedNow s"
  "isRunning (tick s) = isRunning s"
  "workMinutes (tick s) = workMinutes s"
  "breakMinutes (tick s) = breakMinutes s"
  "hpStartRef (tick s) = hpStartRef s"
  "sessionStartRef (tick s) = sessionStartRef s"
  "sessions (tick s) = sessions s"
  "localStorage (tick s) = localStorage s"
  "distractionStreakMs (tick s) = distractionStreakMs s"
  "lastInferTs (tick s) = lastInferTs s"
  "mode (tick s) = mode s"
  by (simp_all add: tick_def score_fields countdown_fields)

lemma loop_fields:
  "focusedNow (loop ts ready est s) =
     (if \<not> ready then None
      else if ts - lastInferTs s \<le> 200 then focusedNow s
      else (case est of
              Failed \<Rightarrow> None
            | Faces present \<Rightarrow>
                if present then Some True
                else if distractionStreakMs s + (ts - lastInferTs s) > 1500 then Some False
                else focusedNow s))"
  "distractionStreakMs (loop ts ready est s) =
     (if \<not> ready \<or> ts - lastInferTs s \<le> 200 then distractionStreakMs s
      else (case est of
              Failed \<Rightarrow> distractionStreakMs s
            | Faces present \<Rightarrow>
                if present then 0 else distractionStreakMs s + (ts - lastInferTs s)))"
  "lastInferTs (loop ts ready est s) =
     (if ready \<and> ts - lastInferTs s > 200 then ts else lastInferTs s)"
  "hp (loop ts ready est s) = hp s"
  "focusSec (loop ts ready est s) = focusSec s"
  "distractSec (loop ts ready est s) = distractSec s"
  "secondsLeft (loop ts ready est s) = secondsLeft s"
  "isOnBreak (loop ts ready est s) = isOnBreak s"
  "isRunning (loop ts ready est s) = isRunning s"
  "workMinutes (loop ts ready est s) = workMinutes s"
  "breakMinutes (loop ts ready est s) = breakMinutes s"
  "hpStartRef (loop ts ready est s) = hpStartRef s"
  "sessionStartRef (loop ts ready est s) = sessionStartRef s"
  "sessions (loop ts ready est s) = sessions s"
  by (simp_all add: loop_def distractGraceMs_def Let_def split: estimate.splits)

lemma startTimer_fields:
  "isRunning (startTimer now s) = True"
  "sessionStartRef (startTimer now s) =
     (if \<not> isRunning s \<and> falsy (sessionStartRef s) then Some now else sessionStartRef s)"
  "hpStartRef (startTimer now s) =
     (if \<not> isRunning s \<and> falsy (sessionStartRef s) then hp s else hpStartRef s)"
  "hp (startTimer now s) = hp s"
  "focusSec (startTimer now s) = focusSec s"
  "distractSec (startTimer now s) = distractSec s"
  "secondsLeft (startTimer now s) = secondsLeft s"
  "isOnBreak (startTimer now s) = isOnBreak s"
  "focusedNow (startTimer now s) = focusedNow s"
  "distractionStreakMs (startTimer now s) = distractionStreakMs s"
  "lastInferTs (startTimer now s) = lastInferTs s"
  "workMinutes (startTimer now s) = workMinutes s"
  "breakMinutes (startTimer now s) = breakMinutes s"
  "sessions (startTimer now s) = sessions s"
  by (simp_all add: startTimer_def Let_def)

lemma newLog_fields:
  "durationSec (newLog now1 now2 nowId s) = focusSec s + distractSec s"
  "focusSec_log (newLog now1 now2 nowId s) = focusSec s"
  "distractSec_log (newLog now1 now2 nowId s) = distractSec s"
  "hpStart (newLog now1 now2 nowId s) = hpStartRef s"
  "hpEnd (newLog now1 now2 nowId s) = hp s"
  "endedAt (newLog now1 now2 nowId s) = now2"
  "id_log (newLog now1 now2 nowId s) = nowId"
  "startedAt (newLog now1 now2 nowId s) =
     (if falsy (sessionStartRef s) then now1 else the (sessionStartRef s))"
  "workMinutes_log (newLog now1 now2 nowId s) = workMinutes s"
  "breakMinutes_log (newLog now1 now2 nowId s) = breakMinutes s"
  "mode_log (newLog now1 now2 nowId s) = mode s"
  by (simp_all add: newLog_def falsy_def split: option.splits)

lemma stopAndSave_fields:
  "sessions (stopAndSave js now1 now2 nowId s)
     = take 300 (Logged (newLog now1 now2 nowId s) # sessions s)"
  "localStorage (stopAndSave js now1 now2 nowId s)
     = Some (js (take 300 (Logged (newLog now1 now2 nowId s) # sessions s)))"
  "isRunning (stopAndSave js now1 now2 nowId s) = False"
  "isOnBreak (stopAndSave js now1 now2 nowId s) = False"
  "secondsLeft (stopAndSave js now1 now2 nowId s) = workMinutes s * 60"
  "focusSec (stopAndSave js now1 now2 nowId s) = 0"
  "distractSec (stopAndSave js now1 now2 nowId s) = 0"
  "hp (stopAndSave js now1 now2 nowId s) = 100"
  "sessionStartRef (stopAndSave js now1 now2 nowId s) = None"
  "hpStartRef (stopAndSave js now1 now2 nowId s) = hpStartRef s"
  "focusedNow (stopAndSave js now1 now2 nowId s) = focusedNow s"
  "distractionStreakMs (stopAndSave js now1 now2 nowId s) = distractionStreakMs s"
  "lastInferTs (stopAndSave js now1 now2 nowId s) = lastInferTs s"
  "workMinutes (stopAndSave js now1 now2 nowId s) = workMinutes s"
  "breakMinutes (stopAndSave js now1 now2 nowId s) = breakMinutes s"
  "mode (stopAndSave js now1 now2 nowId s) = mode s"
  by (simp_all add: stopAndSave_def saveSessions_def Let_def)

lemma stopAndSave_resets:
  "stopAndSave js now1 now2 nowId s =
     (resetTimer s)\<lparr>sessions := sessions (stopAndSave js now1 now2 nowId s),
                     localStorage := localStorage (stopAndSave js now1 now2 nowId s)\<rparr>"
  by (simp add: stopAndSave_def saveSessions_def resetTimer_def Let_def)

lemma reload_effects_fields:
  "secondsLeft (reload_effects prev cur) =
     (if (isRunning prev \<noteq> isRunning cur \<or> isOnBreak prev \<noteq> isOnBreak cur
            \<or> (if isOnBreak cur then breakMinutes prev \<noteq> breakMinutes cur
                else workMinutes prev \<noteq> workMinutes cur))
          \<and> \<not> isRunning cur
      then (if isOnBreak cur then breakMinutes cur else workMinutes cur) * 60
      else secondsLeft cur)"
  "isRunning (reload_effects prev cur) = isRunning cur"
  "isOnBreak (reload_effects prev cur) = isOnBreak cur"
  "hp (reload_effects prev cur) = hp cur"
  "focusSec (reload_effects prev cur) = focusSec cur"
  "distractSec (reload_effects prev cur) = distractSec cur"
  "focusedNow (reload_effects prev cur) = focusedNow cur"
  "distractionStreakMs (reload_effects prev cur) = distractionStreakMs cur"
  "lastInferTs (reload_effects prev cur) = lastInferTs cur"
  "workMinutes (reload_effects prev cur) = workMinutes cur"
  "breakMinutes (reload_effects prev cur) = breakMinutes cur"
  "hpStartRef (reload_effects prev cur) = hpStartRef cur"
  "sessionStartRef (reload_effects prev cur) = sessionStartRef cur"
  "sessions (reload_effects prev cur) = sessions cur"
  "localStorage (reload_effects prev cur) = localStorage cur"
  "mode (reload_effects prev cur) = mode cur"
  by (auto simp add: reload_effects_def Let_def)

lemma reload_effects_running: "isRunning cur \<Longrightarrow> reload_effects prev cur = cur"
  by (simp add: reload_effects_def)

lemma reload_effects_idle_work:
  "\<not> isRunning cur \<Longrightarrow> \<not> isOnBreak cur \<Longrightarrow> secondsLeft cur = workMinutes cur * 60
    \<Longrightarrow> reload_effects prev cur = cur"
  by (simp add: reload_effects_def)

lemma initial_fields:
  "workMinutes (initial p item) = 25"
  "breakMinutes (initial p item) = 5"
  "isRunning (initial p item) = False"
  "isOnBreak (initial p item) = False"
  "secondsLeft (initial p item) = 1500"
  "hp (initial p item) = 100"
  "focusedNow (initial p item) = None"
  "distractionStreakMs (initial p item) = 0"
  "focusSec (initial p item) = 0"
  "distractSec (initial p item) = 0"
  "hpStartRef (initial p item) = 100"
  "lastInferTs (initial p item) = 0"
  "sessionStartRef (initial p item) = None"
  "localStorage (initial p item) = item"
  by (simp_all add: initial_def)

lemma mounted_log_is_loaded:
  "sessions (initial JSON_parse item) = map Loaded (loadSessions JSON_parse (Returns item))"
  by (simp add: initial_def)

section \<open>What each event does\<close>

lemma step_Tick_running: "isRunning s \<Longrightarrow> step js Tick s = tick s"
  by (simp add: step_def reload_effects_running tick_fields)

lemma step_Tick_stopped: "\<not> isRunning s \<Longrightarrow> step js Tick s = s"
  by (simp add: step_def reload_effects_def)

lemma step_Start: "step js (Start now) s = startTimer now s"
  by (simp add: step_def reload_effects_running startTimer_fields)

lemma step_Pause_running:
  "isRunning s \<Longrightarrow>
   step js Pause s =
     s\<lparr>isRunning := False,
       secondsLeft := (if isOnBreak s then breakMinutes s else workMinutes s) * 60\<rparr>"
  by (simp add: step_def pauseTimer_def reload_effects_def)

lemma pause_keeps_the_score:
  "isRunning (step js Pause s) = False"
  "isOnBreak (step js Pause s) = isOnBreak s"
  "hp (step js Pause s) = hp s"
  "focusSec (step js Pause s) = focusSec s"
  "distractSec (step js Pause s) = distractSec s"
  by (simp_all add: step_def pauseTimer_def reload_effects_fields)


lemma step_Save: "step js (Save now1 now2 nowId) s = stopAndSave js now1 now2 nowId s"
  unfolding step_def handle.simps
  by (rule reload_effects_idle_work) (simp_all add: stopAndSave_fields)

lemma step_Reset: "step js Reset s = resetTimer s"
  unfolding step_def handle.simps
  by (rule reload_effects_idle_work) (simp_all add: resetTimer_def)

lemma run_Nil: "run js [] s = s"
  by (simp add: run_def)

lemma run_Cons: "run js (ev # evs) s = run js evs (step js ev s)"
  by (simp add: run_def)

lemma run_snoc: "run js (evs @ [ev]) s = step js ev (run js evs s)"
  by (simp add: run_def)

section \<open>Pause\<close>

text \<open>
  Claim C1 fails on the code. \<^verbatim>\<open>pauseTimer\<close> writes \<^verbatim>\<open>isRunning\<close> only, but the change of
  \<^verbatim>\<open>isRunning\<close> triggers the reload effect of lines 89--91, which puts \<^verbatim>\<open>secondsLeft\<close> back to
  the full phase. After Start and two ticks 1498 seconds are left; after the Pause
  that follows, 1500.
\<close>

theorem pause_reloads_the_countdown:
  "secondsLeft (run (\<lambda>list. []) [Start ''2026-01-05T09:00:00.000Z'', Tick, Tick]
      (initial (\<lambda>raw. None) None)) = 1498
   \<and> secondsLeft (run (\<lambda>list. []) [Start ''2026-01-05T09:00:00.000Z'', Tick, Tick, Pause]
      (initial (\<lambda>raw. None) None)) = 1500"
proof -
  let ?s1 = "startTimer ''2026-01-05T09:00:00.000Z'' (initial (\<lambda>raw. None) None)"
  have r: "isRunning ?s1" "isRunning (tick ?s1)" "isRunning (tick (tick ?s1))"
    by (simp_all add: tick_fields startTimer_fields)
  have before: "run (\<lambda>list. []) [Start ''2026-01-05T09:00:00.000Z'', Tick, Tick]
      (initial (\<lambda>raw. None) None) = tick (tick ?s1)"
    by (simp add: run_Cons run_Nil step_Start step_Tick_running r)
  have after: "run (\<lambda>list. []) [Start ''2026-01-05T09:00:00.000Z'', Tick, Tick, Pause]
      (initial (\<lambda>raw. None) None) = step (\<lambda>list. []) Pause (tick (tick ?s1))"
    by (simp add: run_Cons run_Nil step_Start step_Tick_running r)
  show ?thesis
    unfolding before after
    by (simp add: step_Pause_running r tick_fields startTimer_fields initial_fields)
qed

section \<open>Scoring\<close>

lemma tick_hp_range: "0 \<le> hp (tick s) \<and> hp (tick s) \<le> 100"
  by (simp add: tick_fields)

text \<open>
  Claim C2. From any HP in \<open>[0, 100]\<close>, after any finite run of ticks, whatever attention
  signal (Focused, Distracted or Unknown) each tick reads, HP is in \<open>[0, 100]\<close>.
\<close>

theorem hp_stays_in_range:
  "0 \<le> hp s \<Longrightarrow> hp s \<le> 100
    \<Longrightarrow> 0 \<le> hp (ticks_seeing as s) \<and> hp (ticks_seeing as s) \<le> 100"
proof (induction as arbitrary: s)
  case Nil
  then show ?case by simp
next
  case (Cons a as)
  have "0 \<le> hp (tick (s\<lparr>focusedNow := a\<rparr>))" "hp (tick (s\<lparr>focusedNow := a\<rparr>)) \<le> 100"
    using tick_hp_range by blast+
  then show ?case
    using Cons.IH by simp
qed

text \<open>Three ticks from the initial state, one for each attention signal.\<close>

theorem hp_stays_in_range_witness:
  "0 \<le> hp (initial (\<lambda>raw. None) None) \<and> hp (initial (\<lambda>raw. None) None) \<le> 100
   \<and> 0 \<le> hp (ticks_seeing [Some True, Some False, None] (initial (\<lambda>raw. None) None))
   \<and> hp (ticks_seeing [Some True, Some False, None] (initial (\<lambda>raw. None) None)) \<le> 100"
  using hp_stays_in_range [of "initial (\<lambda>raw. None) None" "[Some True, Some False, None]"]
  by (simp add: initial_fields)

lemma step_keeps_hp_in_range:
  assumes "0 \<le> hp s \<and> hp s \<le> 100"
  shows "0 \<le> hp (step js ev s) \<and> hp (step js ev s) \<le> 100"
proof (cases ev)
  case Tick
  show ?thesis
    using assms unfolding Tick
    by (cases "isRunning s") (simp_all add: step_Tick_running step_Tick_stopped tick_fields)
qed (insert assms, simp_all add: step_def reload_effects_fields startTimer_fields
      pauseTimer_def resetTimer_def stopAndSave_fields loop_fields setWorkMinutes_def
      setBreakMinutes_def setMode_def)

lemma hp_in_range_when_mounted:
  "0 \<le> hp (run js evs (initial JSON_parse item))
   \<and> hp (run js evs (initial JSON_parse item)) \<le> 100"
proof (induction evs rule: rev_induct)
  case Nil
  show ?case by (simp add: run_Nil initial_fields)
next
  case (snoc ev evs)
  then show ?case
    unfolding run_snoc by (rule step_keeps_hp_in_range)
qed

lemma ticks_seeing_append:
  "ticks_seeing (as @ bs) s = ticks_seeing bs (ticks_seeing as s)"
  by (induction as arbitrary: s) simp_all

lemma focused_ticks_at_full_hp:
  "hp s = 100 \<Longrightarrow>
   hp (ticks_seeing (replicate n (Some True)) s) = 100
   \<and> focusSec (ticks_seeing (replicate n (Some True)) s) = focusSec s + n
   \<and> distractSec (ticks_seeing (replicate n (Some True)) s) = distractSec s
   \<and> hpStartRef (ticks_seeing (replicate n (Some True)) s) = hpStartRef s"
  by (induction n arbitrary: s) (simp_all add: tick_fields)

lemma distracted_ticks_above_floor:
  "a \<noteq> Some True \<Longrightarrow> real n / 2 \<le> hp s \<Longrightarrow> hp s \<le> 100 \<Longrightarrow>
   hp (ticks_seeing (replicate n a) s) = hp s - real n / 2
   \<and> focusSec (ticks_seeing (replicate n a) s) = focusSec s
   \<and> distractSec (ticks_seeing (replicate n a) s) = distractSec s + n
   \<and> hpStartRef (ticks_seeing (replicate n a) s) = hpStartRef s"
proof (induction n arbitrary: s)
  case 0
  then show ?case by simp
next
  case (Suc n)
  let ?t = "tick (s\<lparr>focusedNow := a\<rparr>)"
  have t: "hp ?t = hp s - 1 / 2" "focusSec ?t = focusSec s"
    "distractSec ?t = distractSec s + 1" "hpStartRef ?t = hpStartRef s"
    using Suc.prems by (simp_all add: tick_fields)
  have "real n / 2 \<le> hp ?t" "hp ?t \<le> 100"
    using Suc.prems t(1) by simp_all
  from Suc.IH [OF Suc.prems(1) this] show ?case
    by (simp add: t field_simps)
qed

lemma ten_focused_then_five_distracted:
  assumes "hp s = 100" "focusSec s = 0" "distractSec s = 0"
  shows "hp (ticks_seeing (replicate 10 (Some True) @ replicate 5 (Some False)) s) = 97.5
   \<and> focusSec (ticks_seeing (replicate 10 (Some True) @ replicate 5 (Some False)) s) = 10
   \<and> distractSec (ticks_seeing (replicate 10 (Some True) @ replicate 5 (Some False)) s) = 5"
proof -
  let ?m = "ticks_seeing (replicate 10 (Some True)) s"
  have m: "hp ?m = 100" "focusSec ?m = 10" "distractSec ?m = 0"
    using focused_ticks_at_full_hp [OF assms(1), of 10] assms by simp_all
  have "hp (ticks_seeing (replicate 5 (Some False)) ?m) = hp ?m - real 5 / 2
   \<and> focusSec (ticks_seeing (replicate 5 (Some False)) ?m) = focusSec ?m
   \<and> distractSec (ticks_seeing (replicate 5 (Some False)) ?m) = distractSec ?m + 5
   \<and> hpStartRef (ticks_seeing (replicate 5 (Some False)) ?m) = hpStartRef ?m"
    by (rule distracted_ticks_above_floor) (simp_all add: m)
  then show ?thesis
    by (simp add: ticks_seeing_append m)
qed

text \<open>
  Whatever the order of the ticks: HP is 100 less one half per distracted tick and plus
  0.06 per focused tick since HP was last clamped at 100.
\<close>

lemma hp_since_last_full:
  assumes "\<exists>d f. d \<le> D \<and> f \<le> F \<and> hp s = 100 - real d / 2 + 3 * real f / 50 \<and> hp s \<le> 100"
    and "D + length (filter (\<lambda>a. a \<noteq> Some True) as) \<le> 100"
  shows "\<exists>d f. d \<le> D + length (filter (\<lambda>a. a \<noteq> Some True) as)
           \<and> f \<le> F + length (filter (\<lambda>a. a = Some True) as)
           \<and> hp (ticks_seeing as s) = 100 - real d / 2 + 3 * real f / 50
           \<and> hp (ticks_seeing as s) \<le> 100"
  using assms
proof (induction as arbitrary: s D F)
  case Nil
  then show ?case by simp
next
  case (Cons a as)
  from Cons.prems(1) obtain d f where df: "d \<le> D" "f \<le> F"
    "hp s = 100 - real d / 2 + 3 * real f / 50" "hp s \<le> 100"
    by blast
  let ?t = "tick (s\<lparr>focusedNow := a\<rparr>)"
  show ?case
  proof (cases "a = Some True")
    case True
    have low: "0 \<le> hp s"
      using df(1,3) Cons.prems(2) by simp
    have "\<exists>d' f'. d' \<le> D \<and> f' \<le> Suc F \<and> hp ?t = 100 - real d' / 2 + 3 * real f' / 50
        \<and> hp ?t \<le> 100"
    proof (cases "hp s + 3 / 50 \<le> 100")
      case True
      with low have t: "hp ?t = hp s + 3 / 50"
        using \<open>a = Some True\<close> by (simp add: tick_fields)
      have "hp ?t = 100 - real d / 2 + 3 * real (Suc f) / 50"
        unfolding t df(3) by (simp add: field_simps)
      moreover have "hp ?t \<le> 100"
        unfolding t using True by simp
      ultimately have "hp ?t = 100 - real d / 2 + 3 * real (Suc f) / 50" "hp ?t \<le> 100"
        by simp_all
      with df(1,2) show ?thesis
        by (metis Suc_le_mono)
    next
      case False
      then have "hp ?t = 100 - real (0::nat) / 2 + 3 * real (0::nat) / 50" "hp ?t \<le> 100"
        using \<open>a = Some True\<close> by (simp_all add: tick_fields)
      then show ?thesis
        by (metis le0)
    qed
    moreover have "D + length (filter (\<lambda>a. a \<noteq> Some True) as) \<le> 100"
      using Cons.prems(2) True by simp
    ultimately have "\<exists>d f. d \<le> D + length (filter (\<lambda>a. a \<noteq> Some True) as)
           \<and> f \<le> Suc F + length (filter (\<lambda>a. a = Some True) as)
           \<and> hp (ticks_seeing as ?t) = 100 - real d / 2 + 3 * real f / 50
           \<and> hp (ticks_seeing as ?t) \<le> 100"
      by (rule Cons.IH)
    then show ?thesis
      using True by simp
  next
    case False
    have room: "Suc d \<le> 100"
      using df(1) Cons.prems(2) False by simp
    then have "real d / 2 + 1 / 2 \<le> 50"
      by simp
    then have "1 / 2 \<le> hp s"
      using df(3) by simp
    then have t: "hp ?t = hp s - 1 / 2"
      using False df(4) by (simp add: tick_fields)
    have "hp ?t = 100 - real (Suc d) / 2 + 3 * real f / 50"
      unfolding t df(3) by (simp add: field_simps)
    moreover have "hp ?t \<le> 100"
      unfolding t using df(4) by simp
    ultimately have "hp ?t = 100 - real (Suc d) / 2 + 3 * real f / 50" "hp ?t \<le> 100"
      by simp_all
    with df(1,2) have "\<exists>d' f'. d' \<le> Suc D \<and> f' \<le> F
        \<and> hp ?t = 100 - real d' / 2 + 3 * real f' / 50 \<and> hp ?t \<le> 100"
      by (metis Suc_le_mono)
    moreover have "Suc D + length (filter (\<lambda>a. a \<noteq> Some True) as) \<le> 100"
      using Cons.prems(2) False by simp
    ultimately have "\<exists>d f. d \<le> Suc D + length (filter (\<lambda>a. a \<noteq> Some True) as)
           \<and> f \<le> F + length (filter (\<lambda>a. a = Some True) as)
           \<and> hp (ticks_seeing as ?t) = 100 - real d / 2 + 3 * real f / 50
           \<and> hp (ticks_seeing as ?t) \<le> 100"
      by (rule Cons.IH)
    then show ?thesis
      using False by simp
  qed
qed

lemma no_order_of_ticks_gives_97_6:
  assumes "hp s = 100"
    and "length (filter (\<lambda>a. a = Some True) as) = 10"
    and "length (filter (\<lambda>a. a \<noteq> Some True) as) = 5"
  shows "hp (ticks_seeing as s) \<noteq> 97.6"
proof
  assume final: "hp (ticks_seeing as s) = 97.6"
  have "\<exists>d f. d \<le> (0::nat) \<and> f \<le> (0::nat) \<and> hp s = 100 - real d / 2 + 3 * real f / 50
      \<and> hp s \<le> 100"
    using assms(1) by simp
  moreover have "0 + length (filter (\<lambda>a. a \<noteq> Some True) as) \<le> 100"
    using assms(3) by simp
  ultimately have "\<exists>d f. d \<le> 0 + length (filter (\<lambda>a. a \<noteq> Some True) as)
           \<and> f \<le> 0 + length (filter (\<lambda>a. a = Some True) as)
           \<and> hp (ticks_seeing as s) = 100 - real d / 2 + 3 * real f / 50
           \<and> hp (ticks_seeing as s) \<le> 100"
    by (rule hp_since_last_full)
  then obtain d f :: nat where df: "d \<le> 5" "f \<le> 10"
    "hp (ticks_seeing as s) = 100 - real d / 2 + 3 * real f / 50"
    using assms(2,3) by auto
  from df(3) final have "real (25 * d) = real (120 + 3 * f)"
    by (simp add: field_simps)
  then have "25 * d = 120 + 3 * f"
    by (simp only: of_nat_eq_iff)
  with df(1,2) show False
    by presburger
qed

text \<open>
  Claim C3, as amended. While running, a tick that reads Focused sets HP to
  \<open>max 0 (min 100 (HP + 0.06))\<close> and adds 1 to \<^verbatim>\<open>focusSec\<close> only; a tick that reads Distracted
  or Unknown sets HP to \<open>max 0 (min 100 (HP - 0.5))\<close> and adds 1 to \<^verbatim>\<open>distractSec\<close> only.
  From HP 100 and both counters 0, the entry saved after 10 focused ticks followed by 5
  distracted ticks has \<^verbatim>\<open>hpEnd\<close> 97.5 (the focused ticks are clamped at 100), \<^verbatim>\<open>focusSec\<close> 10,
  \<^verbatim>\<open>distractSec\<close> 5 and \<^verbatim>\<open>durationSec\<close> 15.
\<close>

theorem tick_scores_attention:
  assumes "isRunning s"
  shows "(focusedNow s = Some True \<longrightarrow>
            hp (step js Tick s) = max 0 (min 100 (hp s + 0.06))
            \<and> focusSec (step js Tick s) = focusSec s + 1
            \<and> distractSec (step js Tick s) = distractSec s)
       \<and> (focusedNow s = Some False \<or> focusedNow s = None \<longrightarrow>
            hp (step js Tick s) = max 0 (min 100 (hp s - 0.5))
            \<and> distractSec (step js Tick s) = distractSec s + 1
            \<and> focusSec (step js Tick s) = focusSec s)
       \<and> (hp s = 100 \<and> focusSec s = 0 \<and> distractSec s = 0 \<longrightarrow>
            (let e = ticks_seeing (replicate 10 (Some True) @ replicate 5 (Some False)) s;
                 log = newLog now1 now2 nowId e
             in hpEnd log = 97.5 \<and> focusSec_log log = 10 \<and> distractSec_log log = 5
                \<and> durationSec log = 15
                \<and> hd (sessions (step js (Save now1 now2 nowId) e)) = Logged log))"
proof -
  have per_tick: "step js Tick s = tick s"
    using assms by (rule step_Tick_running)
  have focused: "focusedNow s = Some True \<longrightarrow>
            hp (step js Tick s) = max 0 (min 100 (hp s + 0.06))
            \<and> focusSec (step js Tick s) = focusSec s + 1
            \<and> distractSec (step js Tick s) = distractSec s"
    by (simp add: per_tick tick_fields)
  have distracted: "focusedNow s = Some False \<or> focusedNow s = None \<longrightarrow>
            hp (step js Tick s) = max 0 (min 100 (hp s - 0.5))
            \<and> distractSec (step js Tick s) = distractSec s + 1
            \<and> focusSec (step js Tick s) = focusSec s"
    by (auto simp add: per_tick tick_fields)
  have example: "hp s = 100 \<and> focusSec s = 0 \<and> distractSec s = 0 \<longrightarrow>
            (let e = ticks_seeing (replicate 10 (Some True) @ replicate 5 (Some False)) s;
                 log = newLog now1 now2 nowId e
             in hpEnd log = 97.5 \<and> focusSec_log log = 10 \<and> distractSec_log log = 5
                \<and> durationSec log = 15
                \<and> hd (sessions (step js (Save now1 now2 nowId) e)) = Logged log)"
  proof
    assume fresh: "hp s = 100 \<and> focusSec s = 0 \<and> distractSec s = 0"
    then have a: "hp s = 100" and b: "focusSec s = 0" and c: "distractSec s = 0"
      by simp_all
    show "(let e = ticks_seeing (replicate 10 (Some True) @ replicate 5 (Some False)) s;
                 log = newLog now1 now2 nowId e
             in hpEnd log = 97.5 \<and> focusSec_log log = 10 \<and> distractSec_log log = 5
                \<and> durationSec log = 15
                \<and> hd (sessions (step js (Save now1 now2 nowId) e)) = Logged log)"
      using ten_focused_then_five_distracted [OF a b c]
      by (simp add: Let_def newLog_fields step_Save stopAndSave_fields)
  qed
  from focused distracted example show ?thesis
    by blast
qed

text \<open>
  The state right after Start reads Unknown; after one frame with a face it reads Focused
  and HP is already 100.
\<close>

theorem tick_scores_attention_witness:
  "isRunning (startTimer ''2026-01-05T09:00:00.000Z'' (initial (\<lambda>raw. None) None))
   \<and> focusedNow (startTimer ''2026-01-05T09:00:00.000Z'' (initial (\<lambda>raw. None) None)) = None
   \<and> hp (step (\<lambda>list. []) Tick
          (startTimer ''2026-01-05T09:00:00.000Z'' (initial (\<lambda>raw. None) None))) = 99.5
   \<and> distractSec (step (\<lambda>list. []) Tick
          (startTimer ''2026-01-05T09:00:00.000Z'' (initial (\<lambda>raw. None) None))) = 1
   \<and> focusSec (step (\<lambda>list. []) Tick
          (startTimer ''2026-01-05T09:00:00.000Z'' (initial (\<lambda>raw. None) None))) = 0
   \<and> isRunning (loop 1000 True (Faces True)
          (startTimer ''2026-01-05T09:00:00.000Z'' (initial (\<lambda>raw. None) None)))
   \<and> focusedNow (loop 1000 True (Faces True)
          (startTimer ''2026-01-05T09:00:00.000Z'' (initial (\<lambda>raw. None) None))) = Some True
   \<and> hp (step (\<lambda>list. []) Tick (loop 1000 True (Faces True)
          (startTimer ''2026-01-05T09:00:00.000Z'' (initial (\<lambda>raw. None) None)))) = 100
   \<and> focusSec (step (\<lambda>list. []) Tick (loop 1000 True (Faces True)
          (startTimer ''2026-01-05T09:00:00.000Z'' (initial (\<lambda>raw. None) None)))) = 1
   \<and> hp (startTimer ''2026-01-05T09:00:00.000Z'' (initial (\<lambda>raw. None) None)) = 100
   \<and> focusSec (startTimer ''2026-01-05T09:00:00.000Z'' (initial (\<lambda>raw. None) None)) = 0
   \<and> distractSec (startTimer ''2026-01-05T09:00:00.000Z'' (initial (\<lambda>raw. None) None)) = 0
   \<and> hpEnd (newLog ''2026-01-05T09:00:15.000Z'' ''2026-01-05T09:00:15.001Z'' ''1767603615001''
          (ticks_seeing (replicate 10 (Some True) @ replicate 5 (Some False))
            (startTimer ''2026-01-05T09:00:00.000Z'' (initial (\<lambda>raw. None) None)))) = 97.5"
  using
    tick_scores_attention [of "startTimer ''2026-01-05T09:00:00.000Z'' (initial (\<lambda>raw. None) None)"
      "\<lambda>list. []" "''2026-01-05T09:00:15.000Z''" "''2026-01-05T09:00:15.001Z''" "''1767603615001''"]
    tick_scores_attention [of "loop 1000 True (Faces True)
      (startTimer ''2026-01-05T09:00:00.000Z'' (initial (\<lambda>raw. None) None))"
      "\<lambda>list. []" "''2026-01-05T09:00:15.000Z''" "''2026-01-05T09:00:15.001Z''" "''1767603615001''"]
  by (simp add: startTimer_fields loop_fields initial_fields Let_def)

text \<open>
  Claim C3 as stated fails: after Start, 10 focused ticks and 5 distracted ticks from
  HP 100 the saved \<^verbatim>\<open>hpEnd\<close> is 97.5, not 97.6.
\<close>

theorem saved_hp_is_not_97_6:
  "hpEnd (newLog ''2026-01-05T09:00:15.000Z'' ''2026-01-05T09:00:15.001Z'' ''1767603615001''
     (ticks_seeing (replicate 10 (Some True) @ replicate 5 (Some False))
        (startTimer ''2026-01-05T09:00:00.000Z'' (initial (\<lambda>raw. None) None)))) \<noteq> 97.6"
proof -
  let ?s = "startTimer ''2026-01-05T09:00:00.000Z'' (initial (\<lambda>raw. None) None)"
  have "hp ?s = 100" "focusSec ?s = 0" "distractSec ?s = 0"
    by (simp_all add: startTimer_fields initial_fields)
  from ten_focused_then_five_distracted [OF this] show ?thesis
    by (simp add: newLog_fields)
qed

text \<open>
  Claim C10. While running in the Break phase, a tick sets HP to
  \<open>max 0 (min 100 (HP + 0.06))\<close> when it reads Focused and to \<open>max 0 (min 100 (HP - 0.5))\<close> when it
  reads Distracted or Unknown, and adds 1 to exactly one of the two counters; HP and
  the counters after the tick are the ones the same tick gives in the Work phase.
\<close>

theorem break_ticks_score_like_work_ticks:
  assumes "isRunning s" "isOnBreak s"
  shows "hp (step js Tick s)
           = (if focusedNow s = Some True then max 0 (min 100 (hp s + 0.06))
              else max 0 (min 100 (hp s - 0.5)))
       \<and> focusSec (step js Tick s)
           = (if focusedNow s = Some True then focusSec s + 1 else focusSec s)
       \<and> distractSec (step js Tick s)
           = (if focusedNow s = Some True then distractSec s else distractSec s + 1)
       \<and> focusSec (step js Tick s) + distractSec (step js Tick s)
           = focusSec s + distractSec s + 1
       \<and> hp (step js Tick s) = hp (step js Tick (s\<lparr>isOnBreak := False\<rparr>))
       \<and> focusSec (step js Tick s) = focusSec (step js Tick (s\<lparr>isOnBreak := False\<rparr>))
       \<and> distractSec (step js Tick s) = distractSec (step js Tick (s\<lparr>isOnBreak := False\<rparr>))"
proof -
  have on_break: "step js Tick s = tick s"
    using assms(1) by (rule step_Tick_running)
  have at_work: "step js Tick (s\<lparr>isOnBreak := False\<rparr>) = tick (s\<lparr>isOnBreak := False\<rparr>)"
    using assms(1) by (simp add: step_Tick_running)
  show ?thesis
    unfolding on_break at_work by (simp add: tick_fields)
qed

text \<open>A distracted tick on a break, at HP 80.\<close>

theorem break_ticks_score_like_work_ticks_witness:
  "isRunning ((startTimer ''2026-01-05T09:00:00.000Z'' (initial (\<lambda>raw. None) None))
      \<lparr>isOnBreak := True, secondsLeft := 300, hp := 80, focusedNow := Some False\<rparr>)
   \<and> isOnBreak ((startTimer ''2026-01-05T09:00:00.000Z'' (initial (\<lambda>raw. None) None))
      \<lparr>isOnBreak := True, secondsLeft := 300, hp := 80, focusedNow := Some False\<rparr>)
   \<and> hp (step (\<lambda>list. []) Tick
        ((startTimer ''2026-01-05T09:00:00.000Z'' (initial (\<lambda>raw. None) None))
          \<lparr>isOnBreak := True, secondsLeft := 300, hp := 80, focusedNow := Some False\<rparr>)) = 79.5
   \<and> distractSec (step (\<lambda>list. []) Tick
        ((startTimer ''2026-01-05T09:00:00.000Z'' (initial (\<lambda>raw. None) None))
          \<lparr>isOnBreak := True, secondsLeft := 300, hp := 80, focusedNow := Some False\<rparr>)) = 1
   \<and> focusSec (step (\<lambda>list. []) Tick
        ((startTimer ''2026-01-05T09:00:00.000Z'' (initial (\<lambda>raw. None) None))
          \<lparr>isOnBreak := True, secondsLeft := 300, hp := 80, focusedNow := Some False\<rparr>)) = 0"
  using break_ticks_score_like_work_ticks
    [of "(startTimer ''2026-01-05T09:00:00.000Z'' (initial (\<lambda>raw. None) None))
          \<lparr>isOnBreak := True, secondsLeft := 300, hp := 80, focusedNow := Some False\<rparr>"
        "\<lambda>list. []"]
  by (simp add: startTimer_fields initial_fields)

section \<open>The interval clock\<close>

lemma ticks_count_down:
  "isRunning s \<Longrightarrow> real n < secondsLeft s \<Longrightarrow>
   secondsLeft ((step js Tick ^^ n) s) = secondsLeft s - real n
   \<and> isOnBreak ((step js Tick ^^ n) s) = isOnBreak s
   \<and> isRunning ((step js Tick ^^ n) s)
   \<and> workMinutes ((step js Tick ^^ n) s) = workMinutes s
   \<and> breakMinutes ((step js Tick ^^ n) s) = breakMinutes s"
proof (induction n)
  case 0
  then show ?case by simp
next
  case (Suc n)
  let ?m = "(step js Tick ^^ n) s"
  have "real n < secondsLeft s"
    using Suc.prems(2) by simp
  with Suc.IH Suc.prems(1) have m: "secondsLeft ?m = secondsLeft s - real n"
    "isOnBreak ?m = isOnBreak s" "isRunning ?m"
    "workMinutes ?m = workMinutes s" "breakMinutes ?m = breakMinutes s"
    by simp_all
  have "1 < secondsLeft ?m"
    using Suc.prems(2) m(1) by simp
  then show ?case
    by (simp add: step_Tick_running m tick_fields)
qed

lemma work_phase_runs_out:
  assumes "isRunning s" "\<not> isOnBreak s" "secondsLeft s = 1500" "breakMinutes s = 5"
  shows "isOnBreak ((step js Tick ^^ 1500) s) \<and> secondsLeft ((step js Tick ^^ 1500) s) = 300"
proof -
  let ?m = "(step js Tick ^^ 1499) s"
  have "real 1499 < secondsLeft s"
    using assms(3) by simp
  from ticks_count_down [OF assms(1) this, of js]
  have m: "secondsLeft ?m = 1" "\<not> isOnBreak ?m" "isRunning ?m" "breakMinutes ?m = 5"
    using assms by simp_all
  have "(step js Tick ^^ 1500) s = step js Tick ?m"
  proof -
    have "(1500::nat) = Suc 1499" by simp
    then show ?thesis by (simp only: funpow.simps o_apply)
  qed
  then show ?thesis
    by (simp add: step_Tick_running m tick_fields)
qed

text \<open>
  Claim C5. While running, a tick with more than one second left takes 1 from
  \<^verbatim>\<open>secondsLeft\<close> and keeps the phase; a tick at the final second (\<^verbatim>\<open>secondsLeft <= 1\<close>) flips the
  phase and loads the duration of the new phase. The tick is the scoring applied to the
  counted-down state; counting down (and so the flip) changes no cell but the phase and
  \<^verbatim>\<open>secondsLeft\<close>, and HP and the two counters after the tick are the ones that the scoring
  alone gives. From Work with 1500 seconds left and 5 break minutes, 1500 ticks
  lead to Break with 300 seconds left.
\<close>

theorem tick_counts_down_and_flips:
  assumes "isRunning s"
  shows "(1 < secondsLeft s \<longrightarrow>
            secondsLeft (step js Tick s) = secondsLeft s - 1
            \<and> isOnBreak (step js Tick s) = isOnBreak s)
       \<and> (secondsLeft s \<le> 1 \<longrightarrow>
            isOnBreak (step js Tick s) = (\<not> isOnBreak s)
            \<and> secondsLeft (step js Tick s)
                = (if isOnBreak s then workMinutes s else breakMinutes s) * 60)
       \<and> step js Tick s = score (countdown s)
       \<and> countdown s = s\<lparr>isOnBreak := isOnBreak (countdown s),
                           secondsLeft := secondsLeft (countdown s)\<rparr>
       \<and> hp (step js Tick s) = hp (score s)
       \<and> focusSec (step js Tick s) = focusSec (score s)
       \<and> distractSec (step js Tick s) = distractSec (score s)
       \<and> (\<not> isOnBreak s \<and> secondsLeft s = 1500 \<and> breakMinutes s = 5 \<longrightarrow>
            isOnBreak ((step js Tick ^^ 1500) s)
            \<and> secondsLeft ((step js Tick ^^ 1500) s) = 300)"
proof -
  have t: "step js Tick s = tick s"
    using assms by (rule step_Tick_running)
  have "\<not> isOnBreak s \<and> secondsLeft s = 1500 \<and> breakMinutes s = 5 \<longrightarrow>
            isOnBreak ((step js Tick ^^ 1500) s)
            \<and> secondsLeft ((step js Tick ^^ 1500) s) = 300"
    using work_phase_runs_out [OF assms] by blast
  moreover have "countdown s = s\<lparr>isOnBreak := isOnBreak (countdown s),
                           secondsLeft := secondsLeft (countdown s)\<rparr>"
    by (rule countdown_frame)
  moreover have "step js Tick s = score (countdown s)"
    by (simp add: t tick_def)
  moreover have "hp (step js Tick s) = hp (score s)"
    "focusSec (step js Tick s) = focusSec (score s)"
    "distractSec (step js Tick s) = distractSec (score s)"
    by (simp_all add: t tick_fields score_fields)
  moreover have "1 < secondsLeft s \<longrightarrow>
            secondsLeft (step js Tick s) = secondsLeft s - 1
            \<and> isOnBreak (step js Tick s) = isOnBreak s"
    by (simp add: t tick_fields)
  moreover have "secondsLeft s \<le> 1 \<longrightarrow>
            isOnBreak (step js Tick s) = (\<not> isOnBreak s)
            \<and> secondsLeft (step js Tick s)
                = (if isOnBreak s then workMinutes s else breakMinutes s) * 60"
    by (simp add: t tick_fields)
  ultimately show ?thesis
    by blast
qed

text \<open>The state right after Start, and the same state at its final second.\<close>

theorem tick_counts_down_and_flips_witness:
  "isRunning (startTimer ''2026-01-05T09:00:00.000Z'' (initial (\<lambda>raw. None) None))
   \<and> 1 < secondsLeft (startTimer ''2026-01-05T09:00:00.000Z'' (initial (\<lambda>raw. None) None))
   \<and> secondsLeft (step (\<lambda>list. []) Tick
        (startTimer ''2026-01-05T09:00:00.000Z'' (initial (\<lambda>raw. None) None))) = 1499
   \<and> \<not> isOnBreak (step (\<lambda>list. []) Tick
        (startTimer ''2026-01-05T09:00:00.000Z'' (initial (\<lambda>raw. None) None)))
   \<and> \<not> isOnBreak (startTimer ''2026-01-05T09:00:00.000Z'' (initial (\<lambda>raw. None) None))
   \<and> secondsLeft (startTimer ''2026-01-05T09:00:00.000Z'' (initial (\<lambda>raw. None) None)) = 1500
   \<and> breakMinutes (startTimer ''2026-01-05T09:00:00.000Z'' (initial (\<lambda>raw. None) None)) = 5
   \<and> isOnBreak ((step (\<lambda>list. []) Tick ^^ 1500)
        (startTimer ''2026-01-05T09:00:00.000Z'' (initial (\<lambda>raw. None) None)))
   \<and> secondsLeft ((step (\<lambda>list. []) Tick ^^ 1500)
        (startTimer ''2026-01-05T09:00:00.000Z'' (initial (\<lambda>raw. None) None))) = 300
   \<and> isRunning ((startTimer ''2026-01-05T09:00:00.000Z'' (initial (\<lambda>raw. None) None))
        \<lparr>secondsLeft := 1\<rparr>)
   \<and> secondsLeft ((startTimer ''2026-01-05T09:00:00.000Z'' (initial (\<lambda>raw. None) None))
        \<lparr>secondsLeft := 1\<rparr>) \<le> 1
   \<and> isOnBreak (step (\<lambda>list. []) Tick
        ((startTimer ''2026-01-05T09:00:00.000Z'' (initial (\<lambda>raw. None) None))
          \<lparr>secondsLeft := 1\<rparr>))
   \<and> secondsLeft (step (\<lambda>list. []) Tick
        ((startTimer ''2026-01-05T09:00:00.000Z'' (initial (\<lambda>raw. None) None))
          \<lparr>secondsLeft := 1\<rparr>)) = 300"
  using
    tick_counts_down_and_flips
      [of "startTimer ''2026-01-05T09:00:00.000Z'' (initial (\<lambda>raw. None) None)" "\<lambda>list. []"]
    tick_counts_down_and_flips
      [of "(startTimer ''2026-01-05T09:00:00.000Z'' (initial (\<lambda>raw. None) None))
            \<lparr>secondsLeft := 1\<rparr>" "\<lambda>list. []"]
  by (simp add: startTimer_fields initial_fields score_fields countdown_fields)

section \<open>The attention debouncer\<close>





section \<open>The session log\<close>

lemma observed_snoc:
  "observed js (evs @ [ev]) s = observe js ev (observed js evs s)"
  by (simp add: observed_def)

lemma observed_state: "fst (observed js evs s) = run js evs s"
proof (induction evs rule: rev_induct)
  case Nil
  show ?case by (simp add: observed_def run_Nil)
next
  case (snoc ev evs)
  then show ?case
    by (cases "observed js evs s") (simp add: observed_snoc run_snoc)
qed

lemma observe_agrees:
  assumes "agrees (s, n, opened)"
  shows "agrees (observe js ev (s, n, opened))"
proof (cases ev)
  case Tick
  show ?thesis
    using assms unfolding Tick
    by (cases "isRunning s")
      (auto simp add: agrees_def step_Tick_running step_Tick_stopped tick_fields
        split: option.splits)
next
  case (Start now)
  show ?thesis
    using assms unfolding Start
    by (auto simp add: agrees_def step_Start startTimer_fields split: option.splits)
qed (insert assms, auto simp add: agrees_def step_def reload_effects_fields
      pauseTimer_def resetTimer_def stopAndSave_fields loop_fields setWorkMinutes_def
      setBreakMinutes_def setMode_def split: option.splits)

lemma observed_agrees: "agrees (observed js evs (initial JSON_parse item))"
proof (induction evs rule: rev_induct)
  case Nil
  show ?case by (simp add: observed_def agrees_def initial_fields)
next
  case (snoc ev evs)
  obtain s n opened where r: "observed js evs (initial JSON_parse item) = (s, n, opened)"
    by (cases "observed js evs (initial JSON_parse item)")
  with snoc have "agrees (s, n, opened)"
    by simp
  then show ?case
    unfolding observed_snoc r by (rule observe_agrees)
qed

lemma observe_settled:
  assumes "settled (s, n, opened)" and "ev \<noteq> Start []"
  shows "settled (observe js ev (s, n, opened))"
proof (cases ev)
  case Tick
  show ?thesis
    using assms(1) unfolding Tick
    by (cases "isRunning s")
      (auto simp add: settled_def step_Tick_running step_Tick_stopped tick_fields
        split: option.splits)
next
  case (Start now)
  with assms(2) have "now \<noteq> []"
    by auto
  then show ?thesis
    using assms(1) unfolding Start
    by (auto simp add: settled_def step_Start startTimer_fields falsy_def
        split: option.splits)
qed (insert assms(1), simp_all add: settled_def step_def reload_effects_fields
      pauseTimer_def resetTimer_def stopAndSave_fields loop_fields setWorkMinutes_def
      setBreakMinutes_def setMode_def falsy_def)

lemma observed_settled:
  "Start [] \<notin> set evs \<Longrightarrow> settled (observed js evs (initial JSON_parse item))"
proof (induction evs rule: rev_induct)
  case Nil
  show ?case by (simp add: observed_def settled_def initial_fields)
next
  case (snoc ev evs)
  obtain s n opened where r: "observed js evs (initial JSON_parse item) = (s, n, opened)"
    by (cases "observed js evs (initial JSON_parse item)")
  from snoc.prems have "Start [] \<notin> set evs" and last: "ev \<noteq> Start []"
    by auto
  with snoc.IH r have "settled (s, n, opened)"
    by simp
  then show ?case
    unfolding observed_snoc r using last by (rule observe_settled)
qed

text \<open>
  Claim C6. In any state reached from the mounted component, the entry that \<^verbatim>\<open>save()\<close>
  builds has \<^verbatim>\<open>durationSec = focusSec + distractSec\<close>, which is the number of ticks processed
  since the last save or reset and, timestamps being non-empty strings, the number of
  ticks processed since the session was opened; its \<^verbatim>\<open>hpEnd\<close> is the current HP and its
  \<^verbatim>\<open>hpStart\<close> the HP noted when the session was opened. The entry is put in front of the
  log, the log is cut to 300 entries and written to storage, and every other cell is what
  \<^verbatim>\<open>reset()\<close> makes it.
\<close>

theorem save_logs_the_session:
  assumes "observed js evs (initial JSON_parse item) = (s, n, opened)"
  shows "s = run js evs (initial JSON_parse item)
       \<and> durationSec (newLog now1 now2 nowId s) = focusSec s + distractSec s
       \<and> focusSec s + distractSec s = n
       \<and> (Start [] \<notin> set evs \<longrightarrow>
            (\<forall>h0 k. opened = Some (h0, k) \<longrightarrow> durationSec (newLog now1 now2 nowId s) = k))
       \<and> focusSec_log (newLog now1 now2 nowId s) = focusSec s
       \<and> distractSec_log (newLog now1 now2 nowId s) = distractSec s
       \<and> hpEnd (newLog now1 now2 nowId s) = hp s
       \<and> endedAt (newLog now1 now2 nowId s) = now2
       \<and> (\<forall>h0 k. opened = Some (h0, k) \<longrightarrow> hpStart (newLog now1 now2 nowId s) = h0)
       \<and> sessions (step js (Save now1 now2 nowId) s)
           = take 300 (Logged (newLog now1 now2 nowId s) # sessions s)
       \<and> localStorage (step js (Save now1 now2 nowId) s)
           = Some (js (sessions (step js (Save now1 now2 nowId) s)))
       \<and> step js (Save now1 now2 nowId) s
           = (step js Reset s)
               \<lparr>sessions := sessions (step js (Save now1 now2 nowId) s),
                localStorage := localStorage (step js (Save now1 now2 nowId) s)\<rparr>"
proof -
  have "agrees (s, n, opened)"
    using observed_agrees [of js evs JSON_parse item] assms by simp
  then have count: "focusSec s + distractSec s = n"
    and noted: "\<forall>h0 k. opened = Some (h0, k) \<longrightarrow> hpStartRef s = h0"
    by (auto simp add: agrees_def)
  have since: "Start [] \<notin> set evs \<longrightarrow> (\<forall>h0 k. opened = Some (h0, k) \<longrightarrow> k = n)"
  proof
    assume "Start [] \<notin> set evs"
    then have "settled (s, n, opened)"
      using observed_settled [of evs js JSON_parse item] assms by simp
    then show "\<forall>h0 k. opened = Some (h0, k) \<longrightarrow> k = n"
      by (auto simp add: settled_def)
  qed
  have state: "s = run js evs (initial JSON_parse item)"
    using observed_state [of js evs "initial JSON_parse item"] assms by simp
  have resets: "step js (Save now1 now2 nowId) s
           = (step js Reset s)
               \<lparr>sessions := sessions (step js (Save now1 now2 nowId) s),
                localStorage := localStorage (step js (Save now1 now2 nowId) s)\<rparr>"
    unfolding step_Save step_Reset by (rule stopAndSave_resets)
  have stored: "sessions (step js (Save now1 now2 nowId) s)
           = take 300 (Logged (newLog now1 now2 nowId s) # sessions s)"
    "localStorage (step js (Save now1 now2 nowId) s)
           = Some (js (sessions (step js (Save now1 now2 nowId) s)))"
    by (simp_all add: step_Save stopAndSave_fields)
  from state count noted since resets stored show ?thesis
    by (simp add: newLog_fields)
qed

text \<open>Start, two ticks with no attention signal yet, Pause.\<close>

theorem save_logs_the_session_witness:
  "observed (\<lambda>list. []) [Start ''2026-01-05T09:00:00.000Z'', Tick, Tick, Pause]
      (initial (\<lambda>raw. None) None)
     = (run (\<lambda>list. []) [Start ''2026-01-05T09:00:00.000Z'', Tick, Tick, Pause]
          (initial (\<lambda>raw. None) None), 2, Some (100, 2))
   \<and> Start [] \<notin> set [Start ''2026-01-05T09:00:00.000Z'', Tick, Tick, Pause]
   \<and> durationSec (newLog ''2026-01-05T09:00:15.000Z'' ''2026-01-05T09:00:15.001Z''
        ''1767603615001''
        (run (\<lambda>list. []) [Start ''2026-01-05T09:00:00.000Z'', Tick, Tick, Pause]
          (initial (\<lambda>raw. None) None))) = 2
   \<and> hpStart (newLog ''2026-01-05T09:00:15.000Z'' ''2026-01-05T09:00:15.001Z''
        ''1767603615001''
        (run (\<lambda>list. []) [Start ''2026-01-05T09:00:00.000Z'', Tick, Tick, Pause]
          (initial (\<lambda>raw. None) None))) = 100
   \<and> hpEnd (newLog ''2026-01-05T09:00:15.000Z'' ''2026-01-05T09:00:15.001Z''
        ''1767603615001''
        (run (\<lambda>list. []) [Start ''2026-01-05T09:00:00.000Z'', Tick, Tick, Pause]
          (initial (\<lambda>raw. None) None))) = 99"
proof -
  let ?s0 = "initial (\<lambda>raw. None) None"
  let ?s1 = "startTimer ''2026-01-05T09:00:00.000Z'' ?s0"
  let ?evs = "[Start ''2026-01-05T09:00:00.000Z'', Tick, Tick, Pause]"
  have r: "isRunning ?s1" "isRunning (tick ?s1)" "isRunning (tick (tick ?s1))"
    by (simp_all add: tick_fields startTimer_fields)
  have final: "run (\<lambda>list. []) ?evs ?s0 = step (\<lambda>list. []) Pause (tick (tick ?s1))"
    by (simp add: run_Cons run_Nil step_Start step_Tick_running r)
  have obs: "observed (\<lambda>list. []) ?evs ?s0 = (run (\<lambda>list. []) ?evs ?s0, 2, Some (100, 2))"
    unfolding final
    by (simp add: observed_def step_Start step_Tick_running r initial_fields falsy_def)
  have stamps: "Start [] \<notin> set ?evs"
    by simp
  have "hp (run (\<lambda>list. []) ?evs ?s0) = 99"
    unfolding final
    by (simp add: pause_keeps_the_score tick_fields startTimer_fields initial_fields)
  with save_logs_the_session [OF obs, of "''2026-01-05T09:00:15.000Z''"
      "''2026-01-05T09:00:15.001Z''" "''1767603615001''"] obs stamps
  show ?thesis
    by simp
qed

lemma step_keeps_log_within_300:
  assumes "length (sessions s) \<le> 300"
  shows "length (sessions (step js ev s)) \<le> 300"
  by (cases ev)
    (insert assms, simp_all add: step_def reload_effects_fields startTimer_fields
      pauseTimer_def resetTimer_def stopAndSave_fields loop_fields tick_fields
      setWorkMinutes_def setBreakMinutes_def setMode_def)

lemma log_within_300_when_mounted:
  assumes "length (loadSessions JSON_parse (Returns item)) \<le> 300"
  shows "length (sessions (run js evs (initial JSON_parse item))) \<le> 300"
proof (induction evs rule: rev_induct)
  case Nil
  show ?case using assms by (simp add: run_Nil mounted_log_is_loaded)
next
  case (snoc ev evs)
  then show ?case
    unfolding run_snoc by (rule step_keeps_log_within_300)
qed

text \<open>
  Claim C7. Whatever the length \<open>n\<close> of the current log, after \<^verbatim>\<open>save()\<close> the log, which is
  also the list written to storage, has length \<open>min (n + 1) 300\<close>, never more than 300, with
  the new entry at the front; below 300 entries nothing is dropped, and at 300 entries
  the last one (the oldest) is dropped.
\<close>

theorem save_caps_the_log_at_300:
  "length (sessions (step js (Save now1 now2 nowId) s)) = min (length (sessions s) + 1) 300
   \<and> length (sessions (step js (Save now1 now2 nowId) s)) \<le> 300
   \<and> localStorage (step js (Save now1 now2 nowId) s)
       = Some (js (sessions (step js (Save now1 now2 nowId) s)))
   \<and> hd (sessions (step js (Save now1 now2 nowId) s)) = Logged (newLog now1 now2 nowId s)
   \<and> (length (sessions s) < 300 \<longrightarrow>
        sessions (step js (Save now1 now2 nowId) s)
          = Logged (newLog now1 now2 nowId s) # sessions s)
   \<and> (length (sessions s) = 300 \<longrightarrow>
        sessions (step js (Save now1 now2 nowId) s)
          = Logged (newLog now1 now2 nowId s) # butlast (sessions s))"
proof -
  have kept: "sessions (step js (Save now1 now2 nowId) s)
      = Logged (newLog now1 now2 nowId s) # take 299 (sessions s)"
    by (simp add: step_Save stopAndSave_fields take_Cons')
  have "length (sessions s) = 300 \<longrightarrow> take 299 (sessions s) = butlast (sessions s)"
    by (simp add: butlast_conv_take)
  moreover have "localStorage (step js (Save now1 now2 nowId) s)
       = Some (js (sessions (step js (Save now1 now2 nowId) s)))"
    by (simp add: step_Save stopAndSave_fields)
  ultimately show ?thesis
    unfolding kept by auto
qed

text \<open>A log of 300 loaded values, and the empty log of the first mount.\<close>

theorem save_caps_the_log_at_300_witness:
  "length (sessions ((initial (\<lambda>raw. None) None)\<lparr>sessions := replicate 300 (Loaded JNull)\<rparr>)) = 300
   \<and> sessions (step (\<lambda>list. []) (Save ''2026-01-05T09:00:15.000Z'' ''2026-01-05T09:00:15.001Z''
          ''1767603615001'')
        ((initial (\<lambda>raw. None) None)\<lparr>sessions := replicate 300 (Loaded JNull)\<rparr>))
     = Logged (newLog ''2026-01-05T09:00:15.000Z'' ''2026-01-05T09:00:15.001Z'' ''1767603615001''
          ((initial (\<lambda>raw. None) None)\<lparr>sessions := replicate 300 (Loaded JNull)\<rparr>))
       # replicate 299 (Loaded JNull)
   \<and> length (sessions (initial (\<lambda>raw. None) None)) < 300
   \<and> sessions (step (\<lambda>list. []) (Save ''2026-01-05T09:00:15.000Z'' ''2026-01-05T09:00:15.001Z''
          ''1767603615001'') (initial (\<lambda>raw. None) None))
     = [Logged (newLog ''2026-01-05T09:00:15.000Z'' ''2026-01-05T09:00:15.001Z'' ''1767603615001''
          (initial (\<lambda>raw. None) None))]"
proof -
  have full: "length (sessions ((initial (\<lambda>raw. None) None)
      \<lparr>sessions := replicate 300 (Loaded JNull)\<rparr>)) = 300"
    by simp
  have empty: "sessions (initial (\<lambda>raw. None) None) = []"
    by (simp add: initial_def loadSessions_def)
  have "butlast (replicate 300 (Loaded JNull)) = replicate 299 (Loaded JNull)"
    by (simp add: butlast_conv_take)
  then show ?thesis
    using
      save_caps_the_log_at_300 [of "\<lambda>list. []" "''2026-01-05T09:00:15.000Z''"
        "''2026-01-05T09:00:15.001Z''" "''1767603615001''"
        "(initial (\<lambda>raw. None) None)\<lparr>sessions := replicate 300 (Loaded JNull)\<rparr>"]
      save_caps_the_log_at_300 [of "\<lambda>list. []" "''2026-01-05T09:00:15.000Z''"
        "''2026-01-05T09:00:15.001Z''" "''1767603615001''" "initial (\<lambda>raw. None) None"]
    by (simp add: full empty)
qed

text \<open>
  What \<^verbatim>\<open>loadSessions\<close> guards against: it returns the empty log, and does not throw, when
  reading the item throws, when the item is absent or the empty string, when \<^verbatim>\<open>JSON.parse\<close>
  throws on it and when it parses to anything but an array. When it parses to an array,
  the elements of that array are returned as they are, whatever they are.
\<close>

lemma loadSessions_empty_unless_array:
  "loadSessions JSON_parse Raises = []
   \<and> loadSessions JSON_parse (Returns None) = []
   \<and> loadSessions JSON_parse (Returns (Some [])) = []
   \<and> (JSON_parse raw = None \<longrightarrow> loadSessions JSON_parse (Returns (Some raw)) = [])
   \<and> ((\<forall>arr. JSON_parse raw \<noteq> Some (JArray arr)) \<longrightarrow>
        loadSessions JSON_parse (Returns (Some raw)) = [])
   \<and> (raw \<noteq> [] \<and> JSON_parse raw = Some (JArray arr) \<longrightarrow>
        loadSessions JSON_parse (Returns (Some raw)) = arr)"
  by (auto simp add: loadSessions_def split: option.splits json.splits)

text \<open>
  Claim C9 fails on the code. The claim is that every malformed stored value is loaded
  as the empty log. The stored text \<^verbatim>\<open>[1]\<close> is JSON and an array, but no session log;
  \<^verbatim>\<open>loadSessions\<close> returns its element as it is, and the mounted component holds it in its
  session list. The parser here agrees with \<^verbatim>\<open>JSON.parse\<close> on that text.
\<close>

theorem loadSessions_returns_malformed_array:
  "loadSessions (\<lambda>raw. if raw = ''[1]'' then Some (JArray [JNumber 1]) else None)
     (Returns (Some ''[1]'')) = [JNumber 1]
   \<and> sessions (initial (\<lambda>raw. if raw = ''[1]'' then Some (JArray [JNumber 1]) else None)
        (Some ''[1]'')) = [Loaded (JNumber 1)]"
  by (simp add: loadSessions_def mounted_log_is_loaded)

section \<open>Reset\<close>

text \<open>
  Claim C8. After \<^verbatim>\<open>reset()\<close>, from any state and with the reload effects run, the counters
  are 0, HP is 100, the phase is Work, \<^verbatim>\<open>secondsLeft\<close> is \<^verbatim>\<open>workMinutes * 60\<close>, the clock is
  stopped and the open-session marker is cleared; the session log and the stored item are
  the ones from before, so no log entry is produced.
\<close>

theorem reset_yields_fresh_state:
  "focusSec (step js Reset s) = 0
   \<and> distractSec (step js Reset s) = 0
   \<and> hp (step js Reset s) = 100
   \<and> isOnBreak (step js Reset s) = False
   \<and> secondsLeft (step js Reset s) = workMinutes s * 60
   \<and> workMinutes (step js Reset s) = workMinutes s
   \<and> isRunning (step js Reset s) = False
   \<and> sessionStartRef (step js Reset s) = None
   \<and> sessions (step js Reset s) = sessions s
   \<and> localStorage (step js Reset s) = localStorage s"
  by (simp add: step_Reset resetTimer_def)

end
